theory Spec2Isabelle
  imports Main "HOL-Library.Multiset"
begin

section \<open>Data model\<close>

text \<open>
  Modelled from the spec: the types \<open>User\<close>, \<open>Fund\<close> and \<open>Transaction\<close> are imported by
  \<open>AppContext.tsx\<close> from \<open>@/types\<close>; their fields are those of section 3 of the
  specification and those the code reads.  Record fields carry a prefix because two
  records cannot share a field name.  Strings are character lists (identifiers are
  ASCII), monetary amounts are whole numbers of the currency unit and timestamps whole
  milliseconds.  The optional \<open>bankAccount\<close> of a user is opaque to the code verified
  here.
\<close>

record user =
  u_id :: string
  displayName :: string
  email :: string
  photoURL :: string
  bankAccount :: "string option"

record fund =
  f_id :: string
  f_name :: string
  f_description :: string
  f_members :: "string list"
  f_createdAt :: int
  f_createdBy :: string

record split =
  s_userId :: string
  s_amount :: int

record transaction =
  t_id :: string
  t_fundId :: string
  t_description :: string
  t_amount :: int
  t_paidBy :: string
  t_splits :: "split list"
  t_createdAt :: int
  t_date :: int

section \<open>Insertion-ordered dictionaries\<close>

text \<open>
  A JavaScript \<open>Map\<close>, and the own properties of a plain object used as a dictionary, keep
  their keys in the order of first insertion; writing to a key that is present replaces the
  value in place.  Both are modelled as association lists with \<open>dict_set\<close>; \<open>map_of\<close> is
  the lookup.  (An object lists keys that look like array indices first; the theorems below
  speak of the entries as a set and of the lookup, never of positions of such keys.)
\<close>

primrec dict_set :: "'k \<Rightarrow> 'v \<Rightarrow> ('k \<times> 'v) list \<Rightarrow> ('k \<times> 'v) list" where
  "dict_set k v [] = [(k, v)]"
| "dict_set k v (p # ps) = (if fst p = k then (k, v) # ps else p # dict_set k v ps)"

section \<open>Plain objects and the members they inherit\<close>

text \<open>
  The dictionaries \<open>balances\<close> and \<open>users\<close> are plain objects (\<open>{}\<close>), not \<open>Map\<close>s.  A read
  \<open>obj[k]\<close> of a key that is not an own property goes on to the prototype,
  \<open>Object.prototype\<close>, whose members are the twelve names below: eleven functions and
  the accessor \<open>__proto__\<close>, which reads as the prototype itself.  All of them are truthy.
  A write \<open>obj[k] = v\<close> creates or replaces an own property, except under the key
  \<open>__proto__\<close>, where the accessor takes the value: an object becomes the new prototype,
  anything else is ignored.
\<close>

definition objectPrototypeNames :: "string list" where
  "objectPrototypeNames =
     [''constructor'', ''__proto__'', ''hasOwnProperty'', ''isPrototypeOf'',
      ''propertyIsEnumerable'', ''toLocaleString'', ''toString'', ''valueOf'',
      ''__defineGetter__'', ''__defineSetter__'', ''__lookupGetter__'', ''__lookupSetter__'']"

section \<open>Numbers\<close>







section \<open>Balance calculator\<close>










section \<open>Application state and the remote collaborators\<close>

text \<open>
  A rejected promise carries the thrown value; the handlers only ask whether it is an
  \<open>Error\<close> object (whose \<open>message\<close> they show) or something else.
\<close>

datatype js_error = ErrorObject string | OtherThrown

text \<open>The calls of \<open>toast\<close> (library \<open>sonner\<close>), in the order they are made.\<close>

datatype toast = ToastSuccess string | ToastError string | ToastInfo string

text \<open>The requests sent to the document store, in the order they are issued.\<close>

datatype remote_call =
    GetUsersByIds "string list"
  | GetUserFunds string
  | GetFundTransactions string
  | DeleteFundService string
  | SyncUserWithFirestore string

text \<open>
  The slot \<open>currentUser\<close> of \<open>sessionStorage\<close> holds a string; \<open>JSON.parse\<close> either
  gives a user back or throws.
\<close>

datatype stored = Serialized user | Unparsable

text \<open>The identity handed over by the authentication provider; absent fields are \<open>None\<close>.\<close>

record firebase_user =
  fb_uid :: string
  fb_displayName :: "string option"
  fb_email :: "string option"
  fb_photoURL :: "string option"

text \<open>
  A transaction as the document store returns it: every field can be missing, the amount
  can be something other than a number (\<open>None\<close>) and \<open>splits\<close> something other than an
  array (\<open>None\<close>).
\<close>

record raw_transaction =
  r_id :: "string option"
  r_fundId :: "string option"
  r_description :: "string option"
  r_amount :: "int option"
  r_paidBy :: "string option"
  r_splits :: "split list option"
  r_createdAt :: "int option"
  r_date :: "int option"

text \<open>
  The services of \<open>@/firebase/*\<close> are not part of the verified sources: they are
  parameters.  Each maps its arguments to the outcome of the awaited promise, \<open>Inl\<close> for a
  rejection.  The \<open>Map\<close> returned by \<open>getUsersByIds\<close> is the list of its entries.
\<close>

record remote =
  getFirestoreUsersByIds :: "string list \<Rightarrow> js_error + (string \<times> user) list"
  getUserFunds :: "string \<Rightarrow> js_error + fund list"
  getFundTransactions :: "string \<Rightarrow> js_error + raw_transaction list"
  deleteFundService :: "string \<Rightarrow> js_error + unit"
  syncUserWithFirestore :: "firebase_user \<Rightarrow> js_error + user"

text \<open>
  The nine \<open>useState\<close> cells of \<open>AppProvider\<close>, followed by the three pieces of the
  outside world the provider writes to: the session-storage slot, the notifications shown
  and the remote requests issued.  The cell \<open>users\<close> holds a plain object: \<open>users\<close> are its
  own properties and \<open>usersPrototype\<close> its prototype, \<open>None\<close> for \<open>Object.prototype\<close>.
\<close>

record app_state =
  currentUser :: "user option"
  funds :: "fund list"
  transactions :: "transaction list"
  selectedFund :: "fund option"
  isAuthLoading :: bool
  authInitialized :: bool
  isLoading :: bool
  users :: "string \<rightharpoonup> user"
  usersPrototype :: "user option"
  hasInitiallyLoaded :: bool
  sessionStorage_currentUser :: "stored option"
  toasts :: "toast list"
  remoteLog :: "remote_call list"

text \<open>The state of the first render: the initial values given to \<open>useState\<close>.\<close>

definition initialState :: "stored option \<Rightarrow> app_state" where
  "initialState storage =
     \<lparr>currentUser = None, funds = [], transactions = [], selectedFund = None,
      isAuthLoading = True, authInitialized = False, isLoading = False,
      users = Map.empty, usersPrototype = None, hasInitiallyLoaded = False,
      sessionStorage_currentUser = storage, toasts = [], remoteLog = []\<rparr>"

text \<open>\<open>error instanceof Error ? error.message : fallback\<close>\<close>

definition errorMessage :: "js_error \<Rightarrow> string \<Rightarrow> string" where
  "errorMessage e fallback = (case e of ErrorObject m \<Rightarrow> m | OtherThrown \<Rightarrow> fallback)"

section \<open>User cache\<close>

text \<open>
  What a read \<open>users[id]\<close> can give: a cached user (an own property), a function of
  \<open>Object.prototype\<close>, the prototype itself (under \<open>__proto__\<close>), and, once a write under
  \<open>__proto__\<close> has made a user object the prototype, a field of that user.
\<close>

datatype js_value =
    UserObject user
  | BuiltinMember string
  | PrototypeObject "user option"
  | StringValue string
  | BankAccountValue string
  | UndefinedValue

text \<open>The properties of a user object, by name.\<close>

definition userField :: "user \<Rightarrow> string \<Rightarrow> js_value" where
  "userField u k =
     (if k = ''id'' then StringValue (u_id u)
      else if k = ''displayName'' then StringValue (displayName u)
      else if k = ''email'' then StringValue (email u)
      else if k = ''photoURL'' then StringValue (photoURL u)
      else if k = ''bankAccount''
           then (case bankAccount u of Some b \<Rightarrow> BankAccountValue b | None \<Rightarrow> UndefinedValue)
      else UndefinedValue)"

definition objectPrototypeGet :: "string \<Rightarrow> js_value" where
  "objectPrototypeGet k = (if k \<in> set objectPrototypeNames then BuiltinMember k else UndefinedValue)"

text \<open>
  \<open>users[k]\<close>: the own property; else, under \<open>__proto__\<close>, the prototype; else the field of
  a user that has become the prototype; else the member of \<open>Object.prototype\<close>.
\<close>

definition usersGet :: "app_state \<Rightarrow> string \<Rightarrow> js_value" where
  "usersGet st k =
     (case users st k of
        Some u \<Rightarrow> UserObject u
      | None \<Rightarrow>
          if k = ''__proto__'' then PrototypeObject (usersPrototype st)
          else (case usersPrototype st of
                  None \<Rightarrow> objectPrototypeGet k
                | Some p \<Rightarrow>
                    if userField p k \<noteq> UndefinedValue then userField p k
                    else objectPrototypeGet k))"

definition truthy :: "js_value \<Rightarrow> bool" where
  "truthy v = (case v of StringValue s \<Rightarrow> s \<noteq> [] | UndefinedValue \<Rightarrow> False | _ \<Rightarrow> True)"

text \<open>
  \<open>getUserById\<close>.  The argument is declared a string, but the first test is there for
  \<open>null\<close> and \<open>undefined\<close> as well (``Handle null/undefined IDs''), so the model takes an
  optional string: \<open>!id\<close> holds for \<open>None\<close> and for the empty string.  The function is
  declared to return a user; \<open>return users[id]\<close> returns whatever the read gave.
\<close>

definition unknownUser :: user where
  "unknownUser = \<lparr>u_id = ''unknown'', displayName = ''Unknown User'', email = [],
                   photoURL = [], bankAccount = None\<rparr>"

definition getUserById :: "app_state \<Rightarrow> string option \<Rightarrow> js_value" where
  "getUserById st idarg =
     (case idarg of
        None \<Rightarrow> UserObject unknownUser
      | Some i \<Rightarrow>
          if i = [] then UserObject unknownUser
          else
            let loadedOrPlaceholder =
                  (if truthy (usersGet st i) then usersGet st i
                   else UserObject \<lparr>u_id = i, displayName = ''User '' @ take 4 i, email = [],
                                     photoURL = [], bankAccount = None\<rparr>)
            in (case currentUser st of
                  Some cu \<Rightarrow> if u_id cu = i then UserObject cu else loadedOrPlaceholder
                | None \<Rightarrow> loadedOrPlaceholder))"

text \<open>
  The words of the specification for the last case of \<open>get(id)\<close>: the placeholder
  \<open>{id, displayName: "User " + first 4 chars of id, email: "", photoURL: ""}\<close>.
\<close>

definition placeholder :: "string \<Rightarrow> user" where
  "placeholder i = \<lparr>u_id = i, displayName = ''User '' @ take 4 i, email = [],
                     photoURL = [], bankAccount = None\<rparr>"





section \<open>Fund and transaction store\<close>

text \<open>
  The texts shown to the user are Vietnamese; they are written here as their UTF-8 bytes.
\<close>

definition msg_fund_deleted :: string where
  "msg_fund_deleted = ''Qu'' @ [CHR 0xE1, CHR 0xBB, CHR 0xB9] @ '' '' @ [CHR 0xC4, CHR 0x91, CHR 0xC3, CHR 0xA3] @ '' '' @ [CHR 0xC4, CHR 0x91, CHR 0xC6, CHR 0xB0, CHR 0xE1, CHR 0xBB, CHR 0xA3] @ ''c x'' @ [CHR 0xC3, CHR 0xB3] @ ''a th'' @ [CHR 0xC3, CHR 0xA0] @ ''nh c'' @ [CHR 0xC3, CHR 0xB4] @ ''ng!''"

definition msg_cannot_delete_fund :: string where
  "msg_cannot_delete_fund = ''Kh'' @ [CHR 0xC3, CHR 0xB4] @ ''ng th'' @ [CHR 0xE1, CHR 0xBB, CHR 0x83] @ '' x'' @ [CHR 0xC3, CHR 0xB3] @ ''a qu'' @ [CHR 0xE1, CHR 0xBB, CHR 0xB9]"

definition msg_cannot_load_funds :: string where
  "msg_cannot_load_funds = ''Kh'' @ [CHR 0xC3, CHR 0xB4] @ ''ng th'' @ [CHR 0xE1, CHR 0xBB, CHR 0x83] @ '' t'' @ [CHR 0xE1, CHR 0xBA, CHR 0xA3] @ ''i danh s'' @ [CHR 0xC3, CHR 0xA1] @ ''ch qu'' @ [CHR 0xE1, CHR 0xBB, CHR 0xB9]"

definition msg_cannot_load_transactions :: string where
  "msg_cannot_load_transactions = ''Kh'' @ [CHR 0xC3, CHR 0xB4] @ ''ng th'' @ [CHR 0xE1, CHR 0xBB, CHR 0x83] @ '' t'' @ [CHR 0xE1, CHR 0xBA, CHR 0xA3] @ ''i danh s'' @ [CHR 0xC3, CHR 0xA1] @ ''ch giao d'' @ [CHR 0xE1, CHR 0xBB, CHR 0x8B] @ ''ch''"

definition default_description :: string where
  "default_description = ''Giao d'' @ [CHR 0xE1, CHR 0xBB, CHR 0x8B] @ ''ch''"

subsection \<open>Loading the funds of a user\<close>

text \<open>
  The three steps on \<open>uniqueFundsMap\<close>: the funds held locally are written into a fresh
  \<open>Map\<close> under their ids, then the fetched ones, then the values are read back in the
  order of the keys.
\<close>

definition dedupeFunds :: "fund list \<Rightarrow> fund list \<Rightarrow> fund list" where
  "dedupeFunds localFunds userFunds =
     (let uniqueFundsMap0 = fold (\<lambda>fund. dict_set (f_id fund) fund) localFunds [];
          uniqueFundsMap = fold (\<lambda>fund. dict_set (f_id fund) fund) userFunds uniqueFundsMap0
      in map snd uniqueFundsMap)"

text \<open>
  \<open>loadUserFunds\<close> is built by \<open>useCallback\<close> with the dependency \<open>funds\<close>: the \<open>funds\<close> it
  reads are those of the render that created the callback, the argument
  \<open>capturedFunds\<close>.  A caller that holds the callback of the latest render passes
  \<open>funds st\<close>.
\<close>

definition loadUserFunds :: "remote \<Rightarrow> fund list \<Rightarrow> string \<Rightarrow> app_state \<Rightarrow> app_state" where
  "loadUserFunds R capturedFunds userId st =
     (if userId = [] then st
      else
        let st1 = st\<lparr>isLoading := True, remoteLog := remoteLog st @ [GetUserFunds userId]\<rparr>
        in case getUserFunds R userId of
             Inr userFunds \<Rightarrow>
               st1\<lparr>funds := dedupeFunds capturedFunds userFunds,
                   hasInitiallyLoaded := True, isLoading := False\<rparr>
           | Inl e \<Rightarrow>
               st1\<lparr>toasts := toasts st1 @ [ToastError msg_cannot_load_funds],
                   hasInitiallyLoaded := True, isLoading := False\<rparr>)"

text \<open>The fund a collection holds under an id; where several share it, the last one.\<close>

definition fundWithId :: "fund list \<Rightarrow> string \<rightharpoonup> fund" where
  "fundWithId fs = map_of (rev (map (\<lambda>f. (f_id f, f)) fs))"

subsection \<open>Loading the transactions of a fund\<close>

text \<open>
  \<open>a || b\<close> on an optional string and on an optional number: the left operand when it is
  truthy (present, and not the empty string, respectively not zero), else the right one.
\<close>

definition str_or :: "string option \<Rightarrow> string \<Rightarrow> string" where
  "str_or a b = (case a of Some s \<Rightarrow> if s \<noteq> [] then s else b | None \<Rightarrow> b)"

definition num_or :: "int option \<Rightarrow> int \<Rightarrow> int" where
  "num_or a b = (case a of Some n \<Rightarrow> if n \<noteq> 0 then n else b | None \<Rightarrow> b)"

text \<open>
  The object \<open>validTransaction\<close> built for every fetched transaction; \<open>now\<close> is the
  reading of \<open>Date.now()\<close>, one value for the calls made while the fetched array is
  mapped.  The \<open>date\<close> falls back on the \<open>createdAt\<close> that was fetched, not on the
  normalised one.
\<close>

definition processTransaction :: "int \<Rightarrow> string \<Rightarrow> raw_transaction \<Rightarrow> transaction" where
  "processTransaction now fundId tr =
     \<lparr>t_id = str_or (r_id tr) ''unknown'',
      t_fundId = str_or (r_fundId tr) fundId,
      t_description = str_or (r_description tr) default_description,
      t_amount = (case r_amount tr of Some n \<Rightarrow> n | None \<Rightarrow> 0),
      t_paidBy = str_or (r_paidBy tr) [],
      t_splits = (case r_splits tr of Some sps \<Rightarrow> sps | None \<Rightarrow> []),
      t_createdAt = num_or (r_createdAt tr) now,
      t_date = num_or (r_date tr) (num_or (r_createdAt tr) now)\<rparr>"

text \<open>The comparison function handed to \<open>sort\<close>.\<close>

definition compareByDate :: "transaction \<Rightarrow> transaction \<Rightarrow> int" where
  "compareByDate a b =
     (let dateA = (if t_date a \<noteq> 0 then t_date a else t_createdAt a);
          dateB = (if t_date b \<noteq> 0 then t_date b else t_createdAt b)
      in dateB - dateA)"

text \<open>The date the comparison function reads off a transaction: \<open>a.date || a.createdAt\<close>.\<close>

definition effectiveDate :: "transaction \<Rightarrow> int" where
  "effectiveDate a = (if t_date a \<noteq> 0 then t_date a else t_createdAt a)"

text \<open>
  \<open>Array.prototype.sort\<close> is stable: elements the comparison function calls equal keep
  their order, and \<open>a\<close> comes after \<open>b\<close> only where \<open>cmp a b > 0\<close>.  For a comparison
  function that is consistent, as a difference of keys is, every stable sort returns the
  same array; insertion from the right is the one written here.
\<close>

fun insertSorted :: "('a \<Rightarrow> 'a \<Rightarrow> int) \<Rightarrow> 'a \<Rightarrow> 'a list \<Rightarrow> 'a list" where
  "insertSorted cmp x [] = [x]"
| "insertSorted cmp x (y # ys) =
     (if cmp x y > 0 then y # insertSorted cmp x ys else x # y # ys)"

definition array_sort :: "('a \<Rightarrow> 'a \<Rightarrow> int) \<Rightarrow> 'a list \<Rightarrow> 'a list" where
  "array_sort cmp xs = foldr (insertSorted cmp) xs []"

definition loadFundTransactions :: "remote \<Rightarrow> int \<Rightarrow> string \<Rightarrow> app_state \<Rightarrow> app_state" where
  "loadFundTransactions R now fundId st =
     (if fundId = [] then st
      else
        let st1 = st\<lparr>isLoading := True, remoteLog := remoteLog st @ [GetFundTransactions fundId]\<rparr>
        in case getFundTransactions R fundId of
             Inr fundTransactions \<Rightarrow>
               if fundTransactions = [] then st1\<lparr>transactions := [], isLoading := False\<rparr>
               else
                 let processedTransactions = map (processTransaction now fundId) fundTransactions;
                     sortedTransactions = array_sort compareByDate processedTransactions
                 in st1\<lparr>transactions := sortedTransactions, isLoading := False\<rparr>
           | Inl e \<Rightarrow>
               st1\<lparr>toasts := toasts st1 @ [ToastError msg_cannot_load_transactions],
                   isLoading := False\<rparr>)"

text \<open>
  The order the specification describes for the transaction collection: descending by
  \<open>date\<close>, and among equal dates descending by \<open>createdAt\<close>.
\<close>

definition sortedByDateThenCreatedAt :: "transaction list \<Rightarrow> bool" where
  "sortedByDateThenCreatedAt ts =
     sorted_wrt (\<lambda>a b. t_date b < t_date a \<or> (t_date b = t_date a \<and> t_createdAt b \<le> t_createdAt a)) ts"

subsection \<open>Deleting a fund\<close>

text \<open>
  The result pairs the state after the call with the value the promise resolves to.  The
  \<open>catch\<close> block handles every rejection of the remote call, so no error leaves the
  function.
\<close>

definition deleteFund :: "remote \<Rightarrow> string \<Rightarrow> app_state \<Rightarrow> app_state \<times> bool" where
  "deleteFund R fundId st =
     (case currentUser st of
        None \<Rightarrow> (st, False)
      | Some cu \<Rightarrow>
          let st1 = st\<lparr>isLoading := True, remoteLog := remoteLog st @ [DeleteFundService fundId]\<rparr>
          in (case deleteFundService R fundId of
               Inr ok \<Rightarrow>
                 (st1\<lparr>funds := filter (\<lambda>f. f_id f \<noteq> fundId) (funds st1),
                      selectedFund := (if map_option f_id (selectedFund st1) = Some fundId
                                       then None else selectedFund st1),
                      toasts := toasts st1 @ [ToastSuccess msg_fund_deleted],
                      isLoading := False\<rparr>, True)
             | Inl e \<Rightarrow>
                 (st1\<lparr>toasts := toasts st1 @ [ToastError (errorMessage e msg_cannot_delete_fund)],
                      isLoading := False\<rparr>, False)))"

section \<open>Session manager\<close>

definition convertFirebaseUser :: "firebase_user \<Rightarrow> user" where
  "convertFirebaseUser firebaseUser =
     \<lparr>u_id = fb_uid firebaseUser,
      displayName = str_or (fb_displayName firebaseUser) ''User'',
      email = str_or (fb_email firebaseUser) [],
      photoURL = str_or (fb_photoURL firebaseUser) [],
      bankAccount = None\<rparr>"

text \<open>
  The listener handed to \<open>onAuthStateChange\<close> is created by an effect whose dependency
  list is empty.  The effect runs once, after the first render, and the listener keeps
  the variables of that run for as long as it is subscribed: \<open>currentUser\<close> and
  \<open>loadUserFunds\<close> (hence \<open>funds\<close>) of the first render, and the local variable
  \<open>hasRestoredFromCache\<close>, assigned before the listener is subscribed.
\<close>

record auth_closure =
  cl_currentUser :: "user option"
  cl_funds :: "fund list"
  cl_hasRestoredFromCache :: bool

text \<open>
  The listener.  The funds of a new identity are loaded in the background; that load is
  run to its end here.  It writes \<open>funds\<close>, \<open>hasInitiallyLoaded\<close>, \<open>isLoading\<close>, the
  notifications and the request log only, none of which the rest of the listener reads.
\<close>

definition authListener ::
  "remote \<Rightarrow> auth_closure \<Rightarrow> firebase_user option \<Rightarrow> app_state \<Rightarrow> app_state" where
  "authListener R cl event st0 =
     (let st = st0\<lparr>authInitialized := True\<rparr>
      in case event of
           Some firebaseUser \<Rightarrow>
             if (case cl_currentUser cl of Some cu \<Rightarrow> u_id cu = fb_uid firebaseUser | None \<Rightarrow> False)
                \<and> cl_hasRestoredFromCache cl
             then st\<lparr>remoteLog := remoteLog st @ [SyncUserWithFirestore (fb_uid firebaseUser)],
                     isAuthLoading := False\<rparr>
             else
               let st1 = st\<lparr>remoteLog := remoteLog st @ [SyncUserWithFirestore (fb_uid firebaseUser)]\<rparr>
               in (case syncUserWithFirestore R firebaseUser of
                     Inr fullUser \<Rightarrow>
                       let st2 = st1\<lparr>currentUser := Some fullUser,
                                     sessionStorage_currentUser := Some (Serialized fullUser)\<rparr>;
                           st3 = (if \<not> cl_hasRestoredFromCache cl
                                  then loadUserFunds R (cl_funds cl) (u_id fullUser) st2 else st2)
                       in st3\<lparr>isAuthLoading := False\<rparr>
                   | Inl e \<Rightarrow>
                       st1\<lparr>currentUser := Some (convertFirebaseUser firebaseUser),
                           sessionStorage_currentUser := Some (Serialized (convertFirebaseUser firebaseUser)),
                           isAuthLoading := False\<rparr>)
         | None \<Rightarrow>
             st\<lparr>currentUser := None, funds := [], transactions := [], users := Map.empty,
                usersPrototype := None, hasInitiallyLoaded := False,
                sessionStorage_currentUser := None, isAuthLoading := False\<rparr>)"

text \<open>
  The effect itself, up to the subscription: \<open>st\<close> is the state of the render the effect
  belongs to.  It returns the state after the restore from the session storage (with the
  background load of the restored user's funds run to its end) and the variables the
  listener keeps.
\<close>

definition mountEffect :: "remote \<Rightarrow> app_state \<Rightarrow> app_state \<times> auth_closure" where
  "mountEffect R st =
     (case sessionStorage_currentUser st of
        Some (Serialized parsedUser) \<Rightarrow>
          (loadUserFunds R (funds st) (u_id parsedUser)
             (st\<lparr>currentUser := Some parsedUser, isAuthLoading := False\<rparr>),
           \<lparr>cl_currentUser = currentUser st, cl_funds = funds st, cl_hasRestoredFromCache = True\<rparr>)
      | Some Unparsable \<Rightarrow>
          (st\<lparr>sessionStorage_currentUser := None\<rparr>,
           \<lparr>cl_currentUser = currentUser st, cl_funds = funds st, cl_hasRestoredFromCache = False\<rparr>)
      | None \<Rightarrow>
          (st, \<lparr>cl_currentUser = currentUser st, cl_funds = funds st, cl_hasRestoredFromCache = False\<rparr>))"

text \<open>Mounting the provider: the effect of the first render, whose state is the initial one.\<close>

definition mountProvider :: "remote \<Rightarrow> stored option \<Rightarrow> app_state \<times> auth_closure" where
  "mountProvider R storage = mountEffect R (initialState storage)"

section \<open>Split calculator\<close>

text \<open>
  Modelled from the spec: \<open>calculateTransactionSplits\<close> is imported from
  \<open>@/utils/transactionUtils\<close>, which is not among the sources; only its call in
  \<open>createTransaction\<close> is.  The definitions follow section 4.2 of the specification: a
  draft carries an amount, the payer, a split rule, the participants and the manual
  figures (a percentage per participant under \<open>PERCENTAGE\<close>, an amount under \<open>EXACT\<close>).
  Amounts are whole currency units; the even share is the integer quotient, and
  \<open>round\<close> rounds halves up as \<open>Math.round\<close> does.
\<close>

datatype split_mode = EQUAL | PERCENTAGE | EXACT

text \<open>
  Modelled from the spec: the transaction draft
  \<open>{ amount, paidBy, splitMode, participants, manualSplits? }\<close>.
\<close>

record draft =
  d_amount :: int
  d_paidBy :: string
  d_splitMode :: split_mode
  d_participants :: "string list"
  d_manualSplits :: "(string \<times> int) list"

text \<open>
  Modelled from the spec: ``divide \<open>amount\<close> evenly across \<open>participants\<close>; any integer
  remainder from rounding is assigned to the first participant''.
\<close>

definition equalSplits :: "int \<Rightarrow> string list \<Rightarrow> split list" where
  "equalSplits amount participants =
     (case participants of
        [] \<Rightarrow> []
      | p # ps \<Rightarrow>
          let share = amount div int (length participants);
              remainder = amount - share * int (length participants)
          in \<lparr>s_userId = p, s_amount = share + remainder\<rparr>
               # map (\<lambda>u. \<lparr>s_userId = u, s_amount = share\<rparr>) ps)"

text \<open>Modelled from the spec: \<open>round(x / 100)\<close> for a whole number \<open>x\<close>.\<close>

definition roundPercent :: "int \<Rightarrow> int" where
  "roundPercent x = (x + 50) div 100"

text \<open>
  Modelled from the spec: ``absorbed by \<open>paidBy\<close>'s entry'', the first entry of the list
  that belongs to the user.
\<close>

fun absorb :: "string \<Rightarrow> int \<Rightarrow> split list \<Rightarrow> split list" where
  "absorb u r [] = []"
| "absorb u r (sp # sps) =
     (if s_userId sp = u then sp\<lparr>s_amount := s_amount sp + r\<rparr> # sps else sp # absorb u r sps)"

text \<open>
  Modelled from the spec: ``each participant's share = \<open>round(amount * pct / 100)\<close>;
  remainder (due to rounding) absorbed by \<open>paidBy\<close>'s entry if present, else the first
  participant''.  A participant without a manual figure has percentage 0.
\<close>

definition percentageSplits ::
  "int \<Rightarrow> string \<Rightarrow> string list \<Rightarrow> (string \<times> int) list \<Rightarrow> split list" where
  "percentageSplits amount paidBy participants manualSplits =
     (let pct = (\<lambda>u. case map_of manualSplits u of Some p \<Rightarrow> p | None \<Rightarrow> 0);
          shares = map (\<lambda>u. \<lparr>s_userId = u, s_amount = roundPercent (amount * pct u)\<rparr>) participants;
          remainder = amount - sum_list (map s_amount shares)
      in if paidBy \<in> set participants then absorb paidBy remainder shares
         else (case shares of
                 [] \<Rightarrow> []
               | sp # sps \<Rightarrow> sp\<lparr>s_amount := s_amount sp + remainder\<rparr> # sps))"

text \<open>
  Modelled from the spec: the three split rules; \<open>EXACT\<close> passes the manual amounts
  through unchanged.
\<close>

definition calculateTransactionSplits :: "draft \<Rightarrow> split list" where
  "calculateTransactionSplits d =
     (case d_splitMode d of
        EQUAL \<Rightarrow> equalSplits (d_amount d) (d_participants d)
      | PERCENTAGE \<Rightarrow>
          percentageSplits (d_amount d) (d_paidBy d) (d_participants d) (d_manualSplits d)
      | EXACT \<Rightarrow> map (\<lambda>(u, a). \<lparr>s_userId = u, s_amount = a\<rparr>) (d_manualSplits d))"

section \<open>Example data\<close>

text \<open>Users, funds, fetched transactions and drafts on which the properties are run.\<close>

definition alice :: user where
  "alice = \<lparr>u_id = ''A'', displayName = ''Alice'', email = ''alice@example.org'',
             photoURL = [], bankAccount = None\<rparr>"

definition alice_synced :: user where
  "alice_synced = \<lparr>u_id = ''A'', displayName = ''Alice L.'', email = ''alice@example.org'',
                    photoURL = ''https://example.org/a.png'', bankAccount = Some ''VCB 0011''\<rparr>"

definition alice_event :: firebase_user where
  "alice_event = \<lparr>fb_uid = ''A'', fb_displayName = Some ''Alice'',
                   fb_email = Some ''alice@example.org'', fb_photoURL = None\<rparr>"

definition bob :: user where
  "bob = \<lparr>u_id = ''B'', displayName = ''Bob'', email = ''bob@example.org'',
           photoURL = [], bankAccount = None\<rparr>"


definition fund1 :: fund where
  "fund1 = \<lparr>f_id = ''f1'', f_name = ''Trip'', f_description = ''Da Lat'',
             f_members = [''A'', ''B''], f_createdAt = 1000, f_createdBy = ''A''\<rparr>"

definition fund1_renamed :: fund where
  "fund1_renamed = fund1\<lparr>f_name := ''Trip 2025''\<rparr>"

definition fund2 :: fund where
  "fund2 = \<lparr>f_id = ''f2'', f_name = ''Flat'', f_description = ''rent'',
             f_members = [''A''], f_createdAt = 2000, f_createdBy = ''A''\<rparr>"

definition fund3 :: fund where
  "fund3 = \<lparr>f_id = ''f3'', f_name = ''Gift'', f_description = ''birthday'',
             f_members = [''A'', ''B''], f_createdAt = 3000, f_createdBy = ''B''\<rparr>"

definition raw1 :: raw_transaction where
  "raw1 = \<lparr>r_id = Some ''t1'', r_fundId = Some ''f1'', r_description = Some ''taxi'',
            r_amount = Some 90, r_paidBy = Some ''A'', r_splits = Some [],
            r_createdAt = Some 1, r_date = Some 10\<rparr>"

definition raw2 :: raw_transaction where
  "raw2 = \<lparr>r_id = Some ''t2'', r_fundId = Some ''f1'', r_description = Some [],
            r_amount = None, r_paidBy = Some ''B'', r_splits = None,
            r_createdAt = Some 2, r_date = Some 10\<rparr>"

definition raw3 :: raw_transaction where
  "raw3 = \<lparr>r_id = Some ''t3'', r_fundId = None, r_description = None,
            r_amount = Some 30, r_paidBy = None, r_splits = Some [],
            r_createdAt = Some 5, r_date = None\<rparr>"

text \<open>
  A document store in which every call succeeds, and one where the deletion of a fund is
  refused.
\<close>

definition okRemote :: remote where
  "okRemote =
     \<lparr>getFirestoreUsersByIds = (\<lambda>ids. Inr (map (\<lambda>i. (i, bob)) (filter (\<lambda>i. i = ''B'') ids))),
      getUserFunds = (\<lambda>userId. Inr [fund1_renamed, fund2]),
      getFundTransactions = (\<lambda>fundId. Inr [raw1, raw2, raw3]),
      deleteFundService = (\<lambda>fundId. Inr ()),
      syncUserWithFirestore = (\<lambda>firebaseUser. Inr alice_synced)\<rparr>"

definition refusingRemote :: remote where
  "refusingRemote = okRemote\<lparr>deleteFundService := (\<lambda>fundId. Inl (ErrorObject ''permission-denied''))\<rparr>"

definition signedIn :: app_state where
  "signedIn = (initialState None)\<lparr>currentUser := Some alice, funds := [fund1]\<rparr>"

definition percentageDraft :: draft where
  "percentageDraft =
     \<lparr>d_amount = 100, d_paidBy = ''u2'', d_splitMode = PERCENTAGE,
      d_participants = [''u1'', ''u2'', ''u3''],
      d_manualSplits = [(''u1'', 33), (''u2'', 33), (''u3'', 33)]\<rparr>"

definition tx_f1 :: transaction where
  "tx_f1 = \<lparr>t_id = ''t1'', t_fundId = ''f1'', t_description = ''lunch'', t_amount = 50,
            t_paidBy = ''B'',
            t_splits = [\<lparr>s_userId = ''A'', s_amount = - 50\<rparr>, \<lparr>s_userId = ''B'', s_amount = 50\<rparr>],
            t_createdAt = 1, t_date = 1\<rparr>"





section \<open>Properties of the dictionaries\<close>

lemma map_of_dict_set: "map_of (dict_set k v al) = (map_of al)(k \<mapsto> v)"
  by (induction al) auto

lemma keys_dict_set: "fst ` set (dict_set k v al) = insert k (fst ` set al)"
  by (induction al) auto

lemma distinct_dict_set:
  "distinct (map fst al) \<Longrightarrow> distinct (map fst (dict_set k v al))"
  by (induction al) (auto simp: keys_dict_set)

section \<open>Properties of the numbers\<close>






section \<open>Properties of the balance calculator\<close>





















section \<open>Properties of the user cache\<close>

text \<open>
  Claim C10.  For a missing (\<open>null\<close>, \<open>undefined\<close>) or empty id, \<open>getUserById\<close> returns
  the fixed user \<open>{id: 'unknown', displayName: 'Unknown User', email: '', photoURL: ''}\<close>,
  whatever the state; this is not the placeholder built from the id, and its display
  name is not empty.
\<close>

theorem getUserById_falsy_id:
  "getUserById st None = UserObject unknownUser
   \<and> getUserById st (Some []) = UserObject unknownUser
   \<and> unknownUser = \<lparr>u_id = ''unknown'', displayName = ''Unknown User'', email = [],
                    photoURL = [], bankAccount = None\<rparr>
   \<and> getUserById st (Some []) \<noteq> UserObject (placeholder [])
   \<and> displayName unknownUser \<noteq> []"
  by (simp add: getUserById_def unknownUser_def placeholder_def)





























section \<open>Properties of the fund store\<close>

subsection \<open>Merging fetched funds\<close>

lemma dict_set_present:
  "k \<in> fst ` set al \<Longrightarrow> map fst (dict_set k v al) = map fst al"
  by (induction al) auto

lemma dict_set_fresh: "k \<notin> fst ` set al \<Longrightarrow> dict_set k v al = al @ [(k, v)]"
  by (induction al) auto

lemma alist_eqI:
  "map fst xs = map fst ys \<Longrightarrow> distinct (map fst xs) \<Longrightarrow> map_of xs = map_of ys \<Longrightarrow> xs = ys"
proof (induction xs arbitrary: ys)
  case Nil
  then show ?case by simp
next
  case (Cons x xs)
  then obtain y ys' where ys: "ys = y # ys'" by (cases ys) auto
  from Cons.prems ys have k: "fst x = fst y" and ks: "map fst xs = map fst ys'" by auto
  from Cons.prems(3) have eq: "map_of (x # xs) a = map_of (y # ys') a" for a
    unfolding ys by (rule fun_cong)
  from eq [of "fst x"] k have v: "snd x = snd y" by (cases x; cases y) auto
  have "map_of xs = map_of ys'"
  proof
    fix a
    show "map_of xs a = map_of ys' a"
    proof (cases "a = fst x")
      case True
      with Cons.prems(2) have "map_of xs a = None"
        by (simp add: map_of_eq_None_iff)
      moreover from True Cons.prems(2) ks have "map_of ys' a = None"
        by (metis distinct.simps(2) list.simps(9) list.set_map map_of_eq_None_iff)
      ultimately show ?thesis by simp
    next
      case False
      from eq [of a] False k show ?thesis by (cases x; cases y) (auto split: if_splits)
    qed
  qed
  with Cons.IH [OF ks] Cons.prems(2) have "xs = ys'" by simp
  with k v ys show ?case by (cases x; cases y) auto
qed

lemma fundWithId_Nil: "fundWithId [] = Map.empty"
  by (simp add: fundWithId_def)

lemma fundWithId_Cons: "fundWithId (f # fs) = [f_id f \<mapsto> f] ++ fundWithId fs"
  by (simp add: fundWithId_def map_of_append)

lemma map_of_fold_funds:
  "map_of (fold (\<lambda>fund. dict_set (f_id fund) fund) fs al) = map_of al ++ fundWithId fs"
proof (induction fs arbitrary: al)
  case Nil
  then show ?case by (simp add: fundWithId_Nil)
next
  case (Cons f fs)
  have "(map_of al)(f_id f \<mapsto> f) = map_of al ++ [f_id f \<mapsto> f]"
    by simp
  then show ?case
    by (simp add: Cons.IH map_of_dict_set fundWithId_Cons del: map_add_upd)
qed

lemma keys_fold_funds:
  "fst ` set (fold (\<lambda>fund. dict_set (f_id fund) fund) fs al) = fst ` set al \<union> f_id ` set fs"
  by (induction fs arbitrary: al) (auto simp: keys_dict_set)

lemma distinct_fold_funds:
  "distinct (map fst al) \<Longrightarrow>
   distinct (map fst (fold (\<lambda>fund. dict_set (f_id fund) fund) fs al))"
  by (induction fs arbitrary: al) (auto simp: distinct_dict_set)

lemma keyed_dict_set:
  "\<forall>(k, v) \<in> set al. f_id v = k \<Longrightarrow> \<forall>(k, v) \<in> set (dict_set (f_id f) f al). f_id v = k"
  by (induction al) auto

lemma keyed_fold_funds:
  "\<forall>(k, v) \<in> set al. f_id v = k \<Longrightarrow>
   \<forall>(k, v) \<in> set (fold (\<lambda>fund. dict_set (f_id fund) fund) fs al). f_id v = k"
proof (induction fs arbitrary: al)
  case Nil
  then show ?case by simp
next
  case (Cons f fs)
  from Cons.prems have "\<forall>(k, v) \<in> set (dict_set (f_id f) f al). f_id v = k"
    by (rule keyed_dict_set)
  then show ?case by (simp add: Cons.IH)
qed

lemma keys_fold_funds_present:
  "f_id ` set fs \<subseteq> fst ` set al \<Longrightarrow>
   map fst (fold (\<lambda>fund. dict_set (f_id fund) fund) fs al) = map fst al"
proof (induction fs arbitrary: al)
  case Nil
  then show ?case by simp
next
  case (Cons f fs)
  from Cons.prems have in_al: "f_id f \<in> fst ` set al" by simp
  then have same: "map fst (dict_set (f_id f) f al) = map fst al"
    by (rule dict_set_present)
  from Cons.prems have "f_id ` set fs \<subseteq> fst ` set (dict_set (f_id f) f al)"
    by (auto simp: keys_dict_set)
  then show ?case by (simp add: Cons.IH same)
qed

lemma rebuild_keyed:
  "distinct (map fst (acc @ al)) \<Longrightarrow> \<forall>(k, v) \<in> set al. f_id v = k \<Longrightarrow>
   fold (\<lambda>fund. dict_set (f_id fund) fund) (map snd al) acc = acc @ al"
proof (induction al arbitrary: acc)
  case Nil
  then show ?case by simp
next
  case (Cons p al)
  obtain k v where p: "p = (k, v)" by (cases p)
  from Cons.prems p have kv: "f_id v = k" and rest: "\<forall>(k, v) \<in> set al. f_id v = k"
    by auto
  from Cons.prems(1) p have fresh: "k \<notin> fst ` set acc" by auto
  from Cons.prems(1) p have d: "distinct (map fst ((acc @ [(k, v)]) @ al))" by simp
  from fresh have "dict_set k v acc = acc @ [(k, v)]" by (rule dict_set_fresh)
  with Cons.IH [OF d rest] p kv show ?case by simp
qed

lemma map_add_twice: "(m ++ n) ++ n = m ++ n"
  by (simp add: fun_eq_iff map_add_def split: option.splits)

lemma dedupeFunds_alist:
  "dedupeFunds localFunds userFunds =
     map snd (fold (\<lambda>fund. dict_set (f_id fund) fund) (localFunds @ userFunds) [])"
  by (simp add: dedupeFunds_def)

lemma dedupeFunds_ids:
  "map f_id (dedupeFunds localFunds userFunds) =
     map fst (fold (\<lambda>fund. dict_set (f_id fund) fund) (localFunds @ userFunds) [])"
proof -
  let ?al = "fold (\<lambda>fund. dict_set (f_id fund) fund) (localFunds @ userFunds) []"
  have "\<forall>(k, v) \<in> set ?al. f_id v = k"
    by (rule keyed_fold_funds) simp
  then have "map (f_id \<circ> snd) ?al = map fst ?al"
    by (intro map_cong) auto
  then show ?thesis by (simp add: dedupeFunds_alist)
qed

lemma distinct_dedupeFunds: "distinct (map f_id (dedupeFunds localFunds userFunds))"
  by (simp only: dedupeFunds_ids) (rule distinct_fold_funds, simp)

lemma ids_dedupeFunds:
  "f_id ` set (dedupeFunds localFunds userFunds) = f_id ` set localFunds \<union> f_id ` set userFunds"
proof -
  have "f_id ` set (dedupeFunds localFunds userFunds)
          = set (map f_id (dedupeFunds localFunds userFunds))" by simp
  also have "\<dots> = f_id ` set localFunds \<union> f_id ` set userFunds"
    by (simp only: dedupeFunds_ids) (simp add: keys_fold_funds image_Un)
  finally show ?thesis .
qed

lemma fundWithId_keyed:
  "distinct (map fst al) \<Longrightarrow> \<forall>(k, v) \<in> set al. f_id v = k \<Longrightarrow>
   fundWithId (map snd al) = map_of al"
proof -
  assume d: "distinct (map fst al)" and k: "\<forall>(k, v) \<in> set al. f_id v = k"
  from d have d0: "distinct (map fst ([] @ al))" by simp
  have "map_of al = map_of (fold (\<lambda>fund. dict_set (f_id fund) fund) (map snd al) [])"
    by (simp add: rebuild_keyed [OF d0 k])
  also have "\<dots> = fundWithId (map snd al)"
    by (simp add: map_of_fold_funds)
  finally show ?thesis by simp
qed

lemma fundWithId_append: "fundWithId (xs @ ys) = fundWithId xs ++ fundWithId ys"
  by (simp add: fundWithId_def map_of_append)

lemma fundWithId_dedupeFunds:
  "fundWithId (dedupeFunds localFunds userFunds) = fundWithId localFunds ++ fundWithId userFunds"
proof -
  let ?al = "fold (\<lambda>fund. dict_set (f_id fund) fund) (localFunds @ userFunds) []"
  have d: "distinct (map fst ?al)" by (rule distinct_fold_funds) simp
  have k: "\<forall>(k, v) \<in> set ?al. f_id v = k" by (rule keyed_fold_funds) simp
  have "fundWithId (dedupeFunds localFunds userFunds) = map_of ?al"
    by (simp only: dedupeFunds_alist fundWithId_keyed [OF d k])
  also have "\<dots> = fundWithId (localFunds @ userFunds)"
    by (simp only: map_of_fold_funds) simp
  also have "\<dots> = fundWithId localFunds ++ fundWithId userFunds"
    by (rule fundWithId_append)
  finally show ?thesis .
qed

lemma dedupeFunds_idem:
  "dedupeFunds (dedupeFunds localFunds userFunds) userFunds = dedupeFunds localFunds userFunds"
proof -
  let ?upd = "\<lambda>fund. dict_set (f_id fund) fund"
  let ?al = "fold ?upd (localFunds @ userFunds) []"
  have d: "distinct (map fst ?al)" by (rule distinct_fold_funds) simp
  have k: "\<forall>(k, v) \<in> set ?al. f_id v = k" by (rule keyed_fold_funds) simp
  from d have d0: "distinct (map fst ([] @ ?al))" by simp
  have rebuilt: "fold ?upd (map snd ?al) [] = ?al"
    using rebuild_keyed [OF d0 k] by simp
  have sub: "f_id ` set userFunds \<subseteq> fst ` set ?al"
    by (auto simp: keys_fold_funds)
  have keys: "map fst (fold ?upd userFunds ?al) = map fst ?al"
    using sub by (rule keys_fold_funds_present)
  have "map_of (fold ?upd userFunds ?al) = map_of ?al ++ fundWithId userFunds"
    by (rule map_of_fold_funds)
  also have "map_of ?al = fundWithId localFunds ++ fundWithId userFunds"
    by (simp add: map_of_fold_funds fundWithId_append)
  finally have maps: "map_of (fold ?upd userFunds ?al) = map_of ?al"
    by (simp add: map_add_twice map_of_fold_funds fundWithId_append)
  from keys have "map fst (fold ?upd userFunds ?al) = map fst ?al" .
  moreover from keys d have "distinct (map fst (fold ?upd userFunds ?al))" by simp
  ultimately have same: "fold ?upd userFunds ?al = ?al"
    using maps by (rule alist_eqI)
  have "dedupeFunds (map snd ?al) userFunds = map snd (fold ?upd userFunds (fold ?upd (map snd ?al) []))"
    by (simp add: dedupeFunds_def)
  also have "\<dots> = map snd ?al" by (simp only: rebuilt same)
  finally show ?thesis by (simp only: dedupeFunds_alist)
qed
lemma loadUserFunds_success:
  "userId \<noteq> [] \<Longrightarrow> getUserFunds R userId = Inr userFunds \<Longrightarrow>
   funds (loadUserFunds R capturedFunds userId st) = dedupeFunds capturedFunds userFunds"
  by (simp add: loadUserFunds_def Let_def)

text \<open>
  The callback of the latest render reads the current \<open>funds\<close>.  When its fetch succeeds
  it leaves a collection in which no two funds share an id; its ids are those held before
  together with those fetched, so no local fund is dropped; under every id it holds the
  fetched fund if one was fetched and the local one otherwise; and a second call that
  fetches the same funds leaves the collection exactly as the first call did.
\<close>

lemma loadUserFunds_fresh_merge:
  "userId \<noteq> [] \<Longrightarrow> getUserFunds R userId = Inr userFunds \<Longrightarrow>
   st1 = loadUserFunds R (funds st) userId st \<Longrightarrow>
   distinct (map f_id (funds st1))
   \<and> f_id ` set (funds st1) = f_id ` set (funds st) \<union> f_id ` set userFunds
   \<and> fundWithId (funds st1) = fundWithId (funds st) ++ fundWithId userFunds
   \<and> funds (loadUserFunds R (funds st1) userId st1) = funds st1"
proof -
  assume ne: "userId \<noteq> []" and r: "getUserFunds R userId = Inr userFunds"
    and st1: "st1 = loadUserFunds R (funds st) userId st"
  have f1: "funds st1 = dedupeFunds (funds st) userFunds"
    unfolding st1 using ne r by (rule loadUserFunds_success)
  have f2: "funds (loadUserFunds R (funds st1) userId st1) = dedupeFunds (funds st1) userFunds"
    using ne r by (rule loadUserFunds_success)
  have a: "distinct (map f_id (funds st1))"
    by (simp only: f1 distinct_dedupeFunds)
  have b: "f_id ` set (funds st1) = f_id ` set (funds st) \<union> f_id ` set userFunds"
    by (simp only: f1 ids_dedupeFunds)
  have c: "fundWithId (funds st1) = fundWithId (funds st) ++ fundWithId userFunds"
    by (simp only: f1 fundWithId_dedupeFunds)
  have d: "funds (loadUserFunds R (funds st1) userId st1) = funds st1"
    by (simp only: f2) (simp only: f1 dedupeFunds_idem)
  from a b c d show ?thesis by blast
qed

lemma loadUserFunds_fresh_merge_example:
  "''A'' \<noteq> []
   \<and> getUserFunds okRemote ''A'' = Inr [fund1_renamed, fund2]
   \<and> funds (loadUserFunds okRemote [fund3, fund1] ''A'' (signedIn\<lparr>funds := [fund3, fund1]\<rparr>))
        = [fund3, fund1_renamed, fund2]
   \<and> distinct (map f_id [fund3, fund1_renamed, fund2])
   \<and> funds (loadUserFunds okRemote [fund3, fund1_renamed, fund2] ''A''
        (loadUserFunds okRemote [fund3, fund1] ''A'' (signedIn\<lparr>funds := [fund3, fund1]\<rparr>)))
        = [fund3, fund1_renamed, fund2]"
proof -
  let ?st = "signedIn\<lparr>funds := [fund3, fund1]\<rparr>"
  let ?st1 = "loadUserFunds okRemote [fund3, fund1] ''A'' ?st"
  have ne: "''A'' \<noteq> []" by simp
  have r: "getUserFunds okRemote ''A'' = Inr [fund1_renamed, fund2]"
    by (simp add: okRemote_def)
  have f: "funds ?st = [fund3, fund1]" by simp
  have f1: "funds ?st1 = [fund3, fund1_renamed, fund2]"
    by (simp add: loadUserFunds_def Let_def r dedupeFunds_def
        fund1_def fund1_renamed_def fund2_def fund3_def)
  note t = loadUserFunds_fresh_merge [OF ne r refl, of ?st, unfolded f f1]
  from t have d: "distinct (map f_id [fund3, fund1_renamed, fund2])"
    and i: "funds (loadUserFunds okRemote [fund3, fund1_renamed, fund2] ''A'' ?st1)
              = [fund3, fund1_renamed, fund2]"
    by blast+
  from ne r f1 d i show ?thesis by blast
qed

subsection \<open>Deleting a fund\<close>

text \<open>
  Claim C6.  With a signed-in user, \<open>deleteFund\<close> issues the remote deletion and then
  goes by its outcome.  When the remote call fails, the result is \<open>false\<close>, the fund
  collection is the one held before, and the failure appears as an error notification
  (the message of the error, or the default text).  When it succeeds, the result is
  \<open>true\<close> and the funds with that id are filtered out of the collection.  In both cases the
  function returns a value: there is no raising branch.
\<close>

theorem deleteFund_remote_first:
  "currentUser st = Some cu \<Longrightarrow>
   remoteLog (fst (deleteFund R fundId st)) = remoteLog st @ [DeleteFundService fundId]
   \<and> (\<forall>e. deleteFundService R fundId = Inl e \<longrightarrow>
         deleteFund R fundId st =
           (st\<lparr>isLoading := False,
               remoteLog := remoteLog st @ [DeleteFundService fundId],
               toasts := toasts st @ [ToastError (errorMessage e msg_cannot_delete_fund)]\<rparr>, False)
         \<and> funds (fst (deleteFund R fundId st)) = funds st)
   \<and> (deleteFundService R fundId = Inr () \<longrightarrow>
         deleteFund R fundId st =
           (st\<lparr>funds := filter (\<lambda>f. f_id f \<noteq> fundId) (funds st),
               selectedFund := (if map_option f_id (selectedFund st) = Some fundId
                                then None else selectedFund st),
               isLoading := False,
               remoteLog := remoteLog st @ [DeleteFundService fundId],
               toasts := toasts st @ [ToastSuccess msg_fund_deleted]\<rparr>, True)
         \<and> fundId \<notin> f_id ` set (funds (fst (deleteFund R fundId st))))"
proof -
  assume cu: "currentUser st = Some cu"
  have a: "remoteLog (fst (deleteFund R fundId st)) = remoteLog st @ [DeleteFundService fundId]"
    using cu by (simp add: deleteFund_def Let_def split: sum.splits)
  have b: "\<forall>e. deleteFundService R fundId = Inl e \<longrightarrow>
         deleteFund R fundId st =
           (st\<lparr>isLoading := False,
               remoteLog := remoteLog st @ [DeleteFundService fundId],
               toasts := toasts st @ [ToastError (errorMessage e msg_cannot_delete_fund)]\<rparr>, False)
         \<and> funds (fst (deleteFund R fundId st)) = funds st"
    using cu by (simp add: deleteFund_def Let_def)
  have c: "deleteFundService R fundId = Inr () \<longrightarrow>
         deleteFund R fundId st =
           (st\<lparr>funds := filter (\<lambda>f. f_id f \<noteq> fundId) (funds st),
               selectedFund := (if map_option f_id (selectedFund st) = Some fundId
                                then None else selectedFund st),
               isLoading := False,
               remoteLog := remoteLog st @ [DeleteFundService fundId],
               toasts := toasts st @ [ToastSuccess msg_fund_deleted]\<rparr>, True)
         \<and> fundId \<notin> f_id ` set (funds (fst (deleteFund R fundId st)))"
    using cu by (auto simp: deleteFund_def Let_def)
  from a b c show ?thesis by blast
qed

text \<open>
  The scenario of the specification: the funds loaded for user \<open>A\<close> are \<open>[f1]\<close>; the remote
  deletion of \<open>f1\<close> is refused; the funds are still \<open>[f1]\<close> and the result is \<open>false\<close>.
\<close>

theorem deleteFund_remote_first_witness:
  "currentUser signedIn = Some alice
   \<and> deleteFundService refusingRemote ''f1'' = Inl (ErrorObject ''permission-denied'')
   \<and> snd (deleteFund refusingRemote ''f1'' signedIn) = False
   \<and> funds (fst (deleteFund refusingRemote ''f1'' signedIn)) = [fund1]
   \<and> toasts (fst (deleteFund refusingRemote ''f1'' signedIn)) = [ToastError ''permission-denied'']
   \<and> deleteFundService okRemote ''f1'' = Inr ()
   \<and> snd (deleteFund okRemote ''f1'' signedIn) = True
   \<and> funds (fst (deleteFund okRemote ''f1'' signedIn)) = []"
proof -
  have cu: "currentUser signedIn = Some alice"
    by (simp add: signedIn_def)
  have r1: "deleteFundService refusingRemote ''f1'' = Inl (ErrorObject ''permission-denied'')"
    by (simp add: refusingRemote_def)
  have r2: "deleteFundService okRemote ''f1'' = Inr ()"
    by (simp add: okRemote_def)
  have s: "funds signedIn = [fund1]" "toasts signedIn = []"
    by (simp_all add: signedIn_def initialState_def)
  from deleteFund_remote_first [OF cu, of refusingRemote "''f1''"] r1
  have d1: "deleteFund refusingRemote ''f1'' signedIn =
           (signedIn\<lparr>isLoading := False,
               remoteLog := remoteLog signedIn @ [DeleteFundService ''f1''],
               toasts := toasts signedIn
                  @ [ToastError (errorMessage (ErrorObject ''permission-denied'') msg_cannot_delete_fund)]\<rparr>,
            False)"
    by blast
  from deleteFund_remote_first [OF cu, of okRemote "''f1''"] r2
  have d2: "deleteFund okRemote ''f1'' signedIn =
           (signedIn\<lparr>funds := filter (\<lambda>f. f_id f \<noteq> ''f1'') (funds signedIn),
               selectedFund := (if map_option f_id (selectedFund signedIn) = Some ''f1''
                                then None else selectedFund signedIn),
               isLoading := False,
               remoteLog := remoteLog signedIn @ [DeleteFundService ''f1''],
               toasts := toasts signedIn @ [ToastSuccess msg_fund_deleted]\<rparr>, True)"
    by blast
  show ?thesis
    by (simp only: d1 d2) (simp add: cu r1 r2 s errorMessage_def fund1_def)
qed

subsection \<open>Loading transactions\<close>

lemma compareByDate_effectiveDate: "compareByDate a b = effectiveDate b - effectiveDate a"
  by (simp add: compareByDate_def effectiveDate_def Let_def)

lemma insertSorted_insort_key:
  "(\<And>a b. 0 < cmp a b \<longleftrightarrow> f b < f a) \<Longrightarrow> insertSorted cmp x ys = insort_key f x ys"
  by (induction ys) (auto simp: not_less)

lemma array_sort_sort_key:
  assumes "\<And>a b. 0 < cmp a b \<longleftrightarrow> f b < f a"
  shows "array_sort cmp xs = sort_key f xs"
proof -
  have "insertSorted cmp = insort_key f"
    by (intro ext) (rule insertSorted_insort_key [OF assms])
  then show ?thesis by (simp add: array_sort_def sort_key_def)
qed

lemma array_sort_compareByDate:
  "array_sort compareByDate ts = sort_key (\<lambda>t. - effectiveDate t) ts"
  by (rule array_sort_sort_key) (simp add: compareByDate_effectiveDate)

lemma num_or_zero: "num_or a b = 0 \<Longrightarrow> b = 0"
  by (auto simp: num_or_def split: option.splits if_splits)

lemma effectiveDate_processed:
  "effectiveDate (processTransaction now fundId tr) = t_date (processTransaction now fundId tr)"
proof (cases "t_date (processTransaction now fundId tr) = 0")
  case True
  then have "num_or (r_date tr) (num_or (r_createdAt tr) now) = 0"
    by (simp add: processTransaction_def)
  then have "num_or (r_createdAt tr) now = 0" by (rule num_or_zero)
  then have "t_createdAt (processTransaction now fundId tr) = 0"
    by (simp add: processTransaction_def)
  with True show ?thesis by (simp add: effectiveDate_def)
next
  case False
  then show ?thesis by (simp add: effectiveDate_def)
qed

lemma sorted_processed:
  "sorted_wrt (\<lambda>a b. t_date b \<le> t_date a)
     (array_sort compareByDate (map (processTransaction now fundId) raws))"
proof -
  let ?ps = "map (processTransaction now fundId) raws"
  let ?ss = "sort_key (\<lambda>t. - effectiveDate t) ?ps"
  have "sorted (map (\<lambda>t. - effectiveDate t) ?ss)" by (rule sorted_sort_key)
  then have s: "sorted_wrt (\<lambda>a b. - effectiveDate a \<le> - effectiveDate b) ?ss"
    by (simp add: sorted_map)
  have "sorted_wrt (\<lambda>a b. t_date b \<le> t_date a) ?ss"
  proof (rule sorted_wrt_mono_rel [OF _ s])
    fix a b assume "a \<in> set ?ss" "b \<in> set ?ss" and le: "- effectiveDate a \<le> - effectiveDate b"
    then have "a \<in> set ?ps" "b \<in> set ?ps" by simp_all
    then have "effectiveDate a = t_date a" "effectiveDate b = t_date b"
      by (auto simp: effectiveDate_processed)
    with le show "t_date b \<le> t_date a" by simp
  qed
  then show ?thesis by (simp only: array_sort_compareByDate)
qed

lemma stable_processed:
  "filter (\<lambda>t. t_date t = d) (array_sort compareByDate (map (processTransaction now fundId) raws))
     = filter (\<lambda>t. t_date t = d) (map (processTransaction now fundId) raws)"
proof -
  let ?ps = "map (processTransaction now fundId) raws"
  let ?ss = "sort_key (\<lambda>t. - effectiveDate t) ?ps"
  have "filter (\<lambda>t. t_date t = d) ?ss = filter (\<lambda>t. - effectiveDate t = - d) ?ss"
    by (rule filter_cong) (auto simp: effectiveDate_processed)
  also have "\<dots> = filter (\<lambda>t. - effectiveDate t = - d) ?ps"
    by (rule sort_key_stable)
  also have "\<dots> = filter (\<lambda>t. t_date t = d) ?ps"
    by (rule filter_cong) (auto simp: effectiveDate_processed)
  finally show ?thesis by (simp only: array_sort_compareByDate)
qed

lemma mset_array_sort_compareByDate: "mset (array_sort compareByDate ts) = mset ts"
  by (simp add: array_sort_compareByDate)

lemma loadFundTransactions_success:
  "fundId \<noteq> [] \<Longrightarrow> getFundTransactions R fundId = Inr fetched \<Longrightarrow>
   transactions (loadFundTransactions R now fundId st)
     = array_sort compareByDate (map (processTransaction now fundId) fetched)"
  by (simp add: loadFundTransactions_def Let_def array_sort_def)

text \<open>
  Claim C7, as stated, fails twice.  The store returns \<open>t1\<close> and \<open>t2\<close>, both dated 10 and
  created at 1 and 2, and \<open>t3\<close> without a date, created at 5; the clock reads 100.  The
  collection comes out as \<open>t1, t2, t3\<close>: the tie between \<open>t1\<close> and \<open>t2\<close> is not broken by
  descending \<open>createdAt\<close>, and the missing date of \<open>t3\<close> became its \<open>createdAt\<close>, not the
  current time.
\<close>

theorem loadFundTransactions_counterexample:
  "\<not> sortedByDateThenCreatedAt (transactions (loadFundTransactions okRemote 100 ''f1'' signedIn))
   \<and> map t_id (transactions (loadFundTransactions okRemote 100 ''f1'' signedIn)) = [''t1'', ''t2'', ''t3'']
   \<and> map t_date (transactions (loadFundTransactions okRemote 100 ''f1'' signedIn)) = [10, 10, 5]
   \<and> map t_createdAt (transactions (loadFundTransactions okRemote 100 ''f1'' signedIn)) = [1, 2, 5]
   \<and> r_date raw3 = None"
  by (simp add: loadFundTransactions_def okRemote_def Let_def array_sort_def
      processTransaction_def compareByDate_def sortedByDateThenCreatedAt_def
      raw1_def raw2_def raw3_def str_or_def num_or_def)

lemma processTransaction_strings:
  "p = processTransaction now fundId tr \<Longrightarrow>
   (\<forall>s. r_id tr = Some s \<and> s \<noteq> [] \<longrightarrow> t_id p = s)
   \<and> (r_id tr = None \<or> r_id tr = Some [] \<longrightarrow> t_id p = ''unknown'')
   \<and> (\<forall>s. r_fundId tr = Some s \<and> s \<noteq> [] \<longrightarrow> t_fundId p = s)
   \<and> (r_fundId tr = None \<or> r_fundId tr = Some [] \<longrightarrow> t_fundId p = fundId)
   \<and> (\<forall>s. r_description tr = Some s \<and> s \<noteq> [] \<longrightarrow> t_description p = s)
   \<and> (r_description tr = None \<or> r_description tr = Some [] \<longrightarrow> t_description p = default_description)
   \<and> (\<forall>s. r_paidBy tr = Some s \<and> s \<noteq> [] \<longrightarrow> t_paidBy p = s)
   \<and> (r_paidBy tr = None \<or> r_paidBy tr = Some [] \<longrightarrow> t_paidBy p = [])"
  by (auto simp: processTransaction_def str_or_def)

lemma processTransaction_amount_splits:
  "p = processTransaction now fundId tr \<Longrightarrow>
   (\<forall>n. r_amount tr = Some n \<longrightarrow> t_amount p = n)
   \<and> (r_amount tr = None \<longrightarrow> t_amount p = 0)
   \<and> (\<forall>sps. r_splits tr = Some sps \<longrightarrow> t_splits p = sps)
   \<and> (r_splits tr = None \<longrightarrow> t_splits p = [])"
  by (auto simp: processTransaction_def)

lemma processTransaction_times:
  "p = processTransaction now fundId tr \<Longrightarrow>
   (\<forall>c. r_createdAt tr = Some c \<and> c \<noteq> 0 \<longrightarrow> t_createdAt p = c)
   \<and> (r_createdAt tr = None \<or> r_createdAt tr = Some 0 \<longrightarrow> t_createdAt p = now)
   \<and> (\<forall>d. r_date tr = Some d \<and> d \<noteq> 0 \<longrightarrow> t_date p = d)
   \<and> (r_date tr = None \<or> r_date tr = Some 0 \<longrightarrow>
        (\<forall>c. r_createdAt tr = Some c \<and> c \<noteq> 0 \<longrightarrow> t_date p = c)
        \<and> (r_createdAt tr = None \<or> r_createdAt tr = Some 0 \<longrightarrow> t_date p = now))"
  by (auto simp: processTransaction_def num_or_def)

text \<open>
  Claim C7, amended.  When the fetch succeeds, \<open>loadFundTransactions\<close> replaces the local
  transaction collection by the fetched transactions, normalised and sorted: the result
  does not depend on the transactions held before.  A normalised transaction keeps every
  field that was fetched with a usable value (a non-empty string, a number, an array, a
  non-zero time).  Otherwise the id is \<open>unknown\<close>, the fund id the one asked for, the
  description the default text, the amount 0, the payer empty, the splits the empty list,
  \<open>createdAt\<close> the current time, and \<open>date\<close> the fetched \<open>createdAt\<close> when that is
  usable and the current time when it is not.  The collection is sorted descending by
  \<open>date\<close>, and transactions of equal date keep the order in which they were fetched.
\<close>

theorem loadFundTransactions_replaces_sorted:
  "fundId \<noteq> [] \<Longrightarrow> getFundTransactions R fundId = Inr fetched \<Longrightarrow>
   st1 = loadFundTransactions R now fundId st \<Longrightarrow>
   p = processTransaction now fundId tr \<Longrightarrow>
   transactions st1 = array_sort compareByDate (map (processTransaction now fundId) fetched)
   \<and> mset (transactions st1) = mset (map (processTransaction now fundId) fetched)
   \<and> sorted_wrt (\<lambda>a b. t_date b \<le> t_date a) (transactions st1)
   \<and> filter (\<lambda>t. t_date t = d) (transactions st1)
        = filter (\<lambda>t. t_date t = d) (map (processTransaction now fundId) fetched)
   \<and> (\<forall>s. r_id tr = Some s \<and> s \<noteq> [] \<longrightarrow> t_id p = s)
   \<and> (r_id tr = None \<or> r_id tr = Some [] \<longrightarrow> t_id p = ''unknown'')
   \<and> (\<forall>s. r_fundId tr = Some s \<and> s \<noteq> [] \<longrightarrow> t_fundId p = s)
   \<and> (r_fundId tr = None \<or> r_fundId tr = Some [] \<longrightarrow> t_fundId p = fundId)
   \<and> (\<forall>s. r_description tr = Some s \<and> s \<noteq> [] \<longrightarrow> t_description p = s)
   \<and> (r_description tr = None \<or> r_description tr = Some [] \<longrightarrow> t_description p = default_description)
   \<and> (\<forall>s. r_paidBy tr = Some s \<and> s \<noteq> [] \<longrightarrow> t_paidBy p = s)
   \<and> (r_paidBy tr = None \<or> r_paidBy tr = Some [] \<longrightarrow> t_paidBy p = [])
   \<and> (\<forall>n. r_amount tr = Some n \<longrightarrow> t_amount p = n)
   \<and> (r_amount tr = None \<longrightarrow> t_amount p = 0)
   \<and> (\<forall>sps. r_splits tr = Some sps \<longrightarrow> t_splits p = sps)
   \<and> (r_splits tr = None \<longrightarrow> t_splits p = [])
   \<and> (\<forall>c. r_createdAt tr = Some c \<and> c \<noteq> 0 \<longrightarrow> t_createdAt p = c)
   \<and> (r_createdAt tr = None \<or> r_createdAt tr = Some 0 \<longrightarrow> t_createdAt p = now)
   \<and> (\<forall>d. r_date tr = Some d \<and> d \<noteq> 0 \<longrightarrow> t_date p = d)
   \<and> (r_date tr = None \<or> r_date tr = Some 0 \<longrightarrow>
        (\<forall>c. r_createdAt tr = Some c \<and> c \<noteq> 0 \<longrightarrow> t_date p = c)
        \<and> (r_createdAt tr = None \<or> r_createdAt tr = Some 0 \<longrightarrow> t_date p = now))"
proof -
  assume ne: "fundId \<noteq> []" and r: "getFundTransactions R fundId = Inr fetched"
    and st1: "st1 = loadFundTransactions R now fundId st"
    and p: "p = processTransaction now fundId tr"
  have t: "transactions st1 = array_sort compareByDate (map (processTransaction now fundId) fetched)"
    unfolding st1 using ne r by (rule loadFundTransactions_success)
  have m: "mset (transactions st1) = mset (map (processTransaction now fundId) fetched)"
    by (simp only: t mset_array_sort_compareByDate)
  have s: "sorted_wrt (\<lambda>a b. t_date b \<le> t_date a) (transactions st1)"
    by (simp only: t sorted_processed)
  have f: "filter (\<lambda>t. t_date t = d) (transactions st1)
        = filter (\<lambda>t. t_date t = d) (map (processTransaction now fundId) fetched)"
    by (simp only: t stable_processed)
  note n1 = processTransaction_strings [OF p]
  note n2 = processTransaction_amount_splits [OF p]
  note n3 = processTransaction_times [OF p]
  show ?thesis
    using t m s f n1 n2 n3 by (elim conjE) (intro conjI; assumption)
qed

theorem loadFundTransactions_replaces_sorted_witness:
  "''f1'' \<noteq> []
   \<and> getFundTransactions okRemote ''f1'' = Inr [raw1, raw2, raw3]
   \<and> r_date raw3 = None \<and> r_createdAt raw3 = Some 5 \<and> r_id raw3 = Some ''t3''
   \<and> r_amount raw3 = Some 30
   \<and> t_date (processTransaction 100 ''f1'' raw3) = 5
   \<and> t_id (processTransaction 100 ''f1'' raw3) = ''t3''
   \<and> t_amount (processTransaction 100 ''f1'' raw3) = 30
   \<and> sorted_wrt (\<lambda>a b. t_date b \<le> t_date a)
        (transactions (loadFundTransactions okRemote 100 ''f1'' (signedIn\<lparr>transactions := [tx_f1]\<rparr>)))
   \<and> transactions (loadFundTransactions okRemote 100 ''f1'' (signedIn\<lparr>transactions := [tx_f1]\<rparr>))
        = array_sort compareByDate (map (processTransaction 100 ''f1'') [raw1, raw2, raw3])"
proof -
  have ne: "''f1'' \<noteq> []" by simp
  have r: "getFundTransactions okRemote ''f1'' = Inr [raw1, raw2, raw3]"
    by (simp add: okRemote_def)
  have d: "r_date raw3 = None" and c: "r_createdAt raw3 = Some 5" and c0: "(5::int) \<noteq> 0"
    and i: "r_id raw3 = Some ''t3''" and i0: "''t3'' \<noteq> []" and a: "r_amount raw3 = Some 30"
    by (simp_all add: raw3_def)
  note t = loadFundTransactions_replaces_sorted
    [where now = 100 and st = "signedIn\<lparr>transactions := [tx_f1]\<rparr>" and tr = raw3 and d = 10,
     OF ne r refl refl]
  have v1: "t_date (processTransaction 100 ''f1'' raw3) = 5"
    using t d c by (elim conjE) simp
  have v2: "t_id (processTransaction 100 ''f1'' raw3) = ''t3''"
    using t i by (elim conjE) simp
  have v3: "t_amount (processTransaction 100 ''f1'' raw3) = 30"
    using t a by (elim conjE) simp
  have v4: "sorted_wrt (\<lambda>a b. t_date b \<le> t_date a)
        (transactions (loadFundTransactions okRemote 100 ''f1'' (signedIn\<lparr>transactions := [tx_f1]\<rparr>)))"
    using t by (elim conjE)
  have v5: "transactions (loadFundTransactions okRemote 100 ''f1'' (signedIn\<lparr>transactions := [tx_f1]\<rparr>))
        = array_sort compareByDate (map (processTransaction 100 ''f1'') [raw1, raw2, raw3])"
    using t by (elim conjE)
  from ne r d c i a v1 v2 v3 v4 v5 show ?thesis by (intro conjI)
qed

section \<open>Properties of the session manager\<close>

text \<open>
  Claim C4.  After the listener has handled a signed-out event, the current user is
  absent, the funds and the transactions are empty lists, the user cache is empty and the
  session-storage slot is cleared, whatever the state before, the document store and the
  variables the listener keeps.
\<close>

theorem authListener_signed_out:
  "authListener R cl None st =
      st\<lparr>authInitialized := True, currentUser := None, funds := [], transactions := [],
         users := Map.empty, usersPrototype := None, hasInitiallyLoaded := False,
         sessionStorage_currentUser := None, isAuthLoading := False\<rparr>
   \<and> currentUser (authListener R cl None st) = None
   \<and> funds (authListener R cl None st) = []
   \<and> transactions (authListener R cl None st) = []
   \<and> users (authListener R cl None st) = Map.empty
   \<and> usersPrototype (authListener R cl None st) = None
   \<and> sessionStorage_currentUser (authListener R cl None st) = None"
  by (simp add: authListener_def Let_def)

lemma mountProvider_closure:
  "snd (mountProvider R storage) =
     \<lparr>cl_currentUser = None, cl_funds = [],
      cl_hasRestoredFromCache = (case storage of Some (Serialized u) \<Rightarrow> True | _ \<Rightarrow> False)\<rparr>"
  by (simp add: mountProvider_def mountEffect_def initialState_def
      split: option.splits stored.splits)

lemma authListener_first_render:
  "cl_currentUser cl = None \<Longrightarrow> syncUserWithFirestore R firebaseUser = Inr fullUser \<Longrightarrow>
   currentUser (authListener R cl (Some firebaseUser) st) = Some fullUser
   \<and> sessionStorage_currentUser (authListener R cl (Some firebaseUser) st) = Some (Serialized fullUser)"
  by (simp add: authListener_def Let_def loadUserFunds_def split: sum.splits)

text \<open>
  Claim C8 does not hold of the code.  The listener subscribed when the provider mounts
  reads the \<open>currentUser\<close> of the first render, which is absent whatever the session
  storage held, so its test for ``this exact user already loaded'' never succeeds.  With
  the snapshot of user \<open>A\<close> restored and shown, an authenticated event for \<open>A\<close> still
  replaces the current user by the profile the store returns and rewrites the snapshot.
\<close>

theorem authListener_same_identity_resyncs:
  "cl_currentUser (snd (mountProvider R storage)) = None
   \<and> (case mountProvider okRemote (Some (Serialized alice)) of
        (st, cl) \<Rightarrow>
          currentUser st = Some alice
          \<and> cl_hasRestoredFromCache cl
          \<and> fb_uid alice_event = u_id alice
          \<and> currentUser (authListener okRemote cl (Some alice_event) st) = Some alice_synced
          \<and> sessionStorage_currentUser (authListener okRemote cl (Some alice_event) st)
               = Some (Serialized alice_synced)
          \<and> alice_synced \<noteq> alice)"
proof -
  have a: "cl_currentUser (snd (mountProvider R storage)) = None"
    by (simp add: mountProvider_closure)
  obtain st cl where m: "mountProvider okRemote (Some (Serialized alice)) = (st, cl)"
    by (cases "mountProvider okRemote (Some (Serialized alice))")
  from m have cl: "cl = snd (mountProvider okRemote (Some (Serialized alice)))" by simp
  have clv: "cl_currentUser cl = None" "cl_hasRestoredFromCache cl"
    by (simp_all add: cl mountProvider_closure)
  from m have "st = fst (mountProvider okRemote (Some (Serialized alice)))" by simp
  then have cu: "currentUser st = Some alice"
    by (simp add: mountProvider_def mountEffect_def initialState_def loadUserFunds_def Let_def
        split: sum.splits)
  have r: "syncUserWithFirestore okRemote alice_event = Inr alice_synced"
    by (simp add: okRemote_def)
  note l = authListener_first_render [OF clv(1) r, of st]
  have e: "fb_uid alice_event = u_id alice" "alice_synced \<noteq> alice"
    by (simp_all add: alice_event_def alice_def alice_synced_def)
  from a cu clv l e show ?thesis by (simp add: m)
qed

text \<open>
  Claim C5 does not hold of the code.  The listener and the mount effect hold the
  \<open>loadUserFunds\<close> of the first render, whose \<open>funds\<close> are the empty list whatever the
  state holds by then.  With fund \<open>f3\<close> held locally and nothing in the session storage,
  the first authenticated event loads the funds of the user through that callback: the
  collection becomes the fetched funds alone and \<open>f3\<close> is dropped, where the callback of
  the latest render keeps it.
\<close>

theorem loadUserFunds_stale_callback_drops_fund:
  "cl_funds (snd (mountProvider R storage)) = []
   \<and> (case mountProvider okRemote None of
        (st, cl) \<Rightarrow>
          getUserFunds okRemote ''A'' = Inr [fund1_renamed, fund2]
          \<and> funds (authListener okRemote cl (Some alice_event) (st\<lparr>funds := [fund3]\<rparr>))
               = [fund1_renamed, fund2]
          \<and> fund3 \<notin> set (funds (authListener okRemote cl (Some alice_event) (st\<lparr>funds := [fund3]\<rparr>)))
          \<and> funds (loadUserFunds okRemote [fund3] ''A'' (st\<lparr>funds := [fund3]\<rparr>))
               = [fund3, fund1_renamed, fund2])"
proof -
  have a: "cl_funds (snd (mountProvider R storage)) = []"
    by (simp add: mountProvider_closure)
  have m: "mountProvider okRemote None =
             (initialState None,
              \<lparr>cl_currentUser = None, cl_funds = [], cl_hasRestoredFromCache = False\<rparr>)"
    by (simp add: mountProvider_def mountEffect_def initialState_def)
  have r: "getUserFunds okRemote ''A'' = Inr [fund1_renamed, fund2]"
    and s: "syncUserWithFirestore okRemote alice_event = Inr alice_synced"
    by (simp_all add: okRemote_def)
  have d0: "dedupeFunds [] [fund1_renamed, fund2] = [fund1_renamed, fund2]"
    by (simp add: dedupeFunds_def fund1_renamed_def fund1_def fund2_def)
  have d3: "dedupeFunds [fund3] [fund1_renamed, fund2] = [fund3, fund1_renamed, fund2]"
    by (simp add: dedupeFunds_def fund1_renamed_def fund1_def fund2_def fund3_def)
  have l: "funds (authListener okRemote
                    \<lparr>cl_currentUser = None, cl_funds = [], cl_hasRestoredFromCache = False\<rparr>
                    (Some alice_event) ((initialState None)\<lparr>funds := [fund3]\<rparr>))
             = [fund1_renamed, fund2]"
    by (simp add: authListener_def Let_def s loadUserFunds_def r d0 alice_synced_def)
  have f: "funds (loadUserFunds okRemote [fund3] ''A'' ((initialState None)\<lparr>funds := [fund3]\<rparr>))
             = [fund3, fund1_renamed, fund2]"
    by (simp add: loadUserFunds_def Let_def r d3)
  have n: "fund3 \<notin> set [fund1_renamed, fund2]"
    by (simp add: fund1_renamed_def fund1_def fund2_def fund3_def)
  from a r l f n show ?thesis by (simp add: m)
qed

section \<open>Properties of the split calculator\<close>

lemma sum_equal_shares:
  "sum_list (map s_amount (map (\<lambda>u. \<lparr>s_userId = u, s_amount = share\<rparr>) ps)) = share * int (length ps)"
  by (induction ps) (simp_all add: algebra_simps)

lemma equalSplits_sum:
  "participants \<noteq> [] \<Longrightarrow> sum_list (map s_amount (equalSplits amount participants)) = amount"
  by (cases participants)
    (simp_all add: equalSplits_def Let_def sum_equal_shares algebra_simps del: map_map)

lemma equalSplits_shape:
  "participants \<noteq> [] \<Longrightarrow>
   equalSplits amount participants =
     \<lparr>s_userId = hd participants,
      s_amount = amount div int (length participants) + amount mod int (length participants)\<rparr>
     # map (\<lambda>u. \<lparr>s_userId = u, s_amount = amount div int (length participants)\<rparr>) (tl participants)"
proof (cases participants)
  case Nil
  assume "participants \<noteq> []"
  with Nil show ?thesis by simp
next
  case (Cons p ps)
  have "amount - amount div int (length participants) * int (length participants)
          = amount mod int (length participants)"
    by (simp add: minus_div_mult_eq_mod)
  with Cons show ?thesis by (simp add: equalSplits_def Let_def)
qed

lemma sum_absorb:
  "u \<in> s_userId ` set sps \<Longrightarrow>
   sum_list (map s_amount (absorb u r sps)) = sum_list (map s_amount sps) + r"
  by (induction sps) auto

lemma percentageSplits_sum:
  assumes "participants \<noteq> []"
  shows "sum_list (map s_amount (percentageSplits amount paidBy participants manualSplits)) = amount"
proof -
  let ?pct = "\<lambda>u. case map_of manualSplits u of Some p \<Rightarrow> p | None \<Rightarrow> 0"
  let ?shares = "map (\<lambda>u. \<lparr>s_userId = u, s_amount = roundPercent (amount * ?pct u)\<rparr>) participants"
  let ?rem = "amount - sum_list (map s_amount ?shares)"
  have ids: "s_userId ` set ?shares = set participants" by force
  show ?thesis
  proof (cases "paidBy \<in> set participants")
    case True
    then have "paidBy \<in> s_userId ` set ?shares" by (simp only: ids)
    then have "sum_list (map s_amount (absorb paidBy ?rem ?shares))
                 = sum_list (map s_amount ?shares) + ?rem"
      by (rule sum_absorb)
    with True show ?thesis by (simp add: percentageSplits_def Let_def del: map_map)
  next
    case False
    from assms obtain p ps where ps: "participants = p # ps" by (cases participants) auto
    with False show ?thesis by (simp add: percentageSplits_def Let_def del: map_map)
  qed
qed

text \<open>
  Claim C2.  For every draft with at least one participant, under the rules \<open>EQUAL\<close> and
  \<open>PERCENTAGE\<close> the amounts of the computed splits add up to the amount of the
  transaction.  Under \<open>EQUAL\<close> every participant gets the integer quotient of the amount by
  the number of participants, and the first one the remainder on top.  The amount 100
  split equally among \<open>u1\<close>, \<open>u2\<close>, \<open>u3\<close> gives 34, 33 and 33.
\<close>

theorem calculateTransactionSplits_sum:
  "d_participants d \<noteq> [] \<Longrightarrow> d_splitMode d \<noteq> EXACT \<Longrightarrow>
   sum_list (map s_amount (calculateTransactionSplits d)) = d_amount d
   \<and> (d_splitMode d = EQUAL \<longrightarrow>
        calculateTransactionSplits d =
          \<lparr>s_userId = hd (d_participants d),
           s_amount = d_amount d div int (length (d_participants d))
                      + d_amount d mod int (length (d_participants d))\<rparr>
          # map (\<lambda>u. \<lparr>s_userId = u, s_amount = d_amount d div int (length (d_participants d))\<rparr>)
              (tl (d_participants d)))
   \<and> calculateTransactionSplits
        \<lparr>d_amount = 100, d_paidBy = ''u1'', d_splitMode = EQUAL,
         d_participants = [''u1'', ''u2'', ''u3''], d_manualSplits = []\<rparr>
       = [\<lparr>s_userId = ''u1'', s_amount = 34\<rparr>, \<lparr>s_userId = ''u2'', s_amount = 33\<rparr>,
          \<lparr>s_userId = ''u3'', s_amount = 33\<rparr>]"
proof -
  assume ne: "d_participants d \<noteq> []" and mode: "d_splitMode d \<noteq> EXACT"
  have a: "sum_list (map s_amount (calculateTransactionSplits d)) = d_amount d"
    using ne mode
    by (cases "d_splitMode d")
      (simp_all add: calculateTransactionSplits_def equalSplits_sum percentageSplits_sum)
  have b: "d_splitMode d = EQUAL \<longrightarrow>
        calculateTransactionSplits d =
          \<lparr>s_userId = hd (d_participants d),
           s_amount = d_amount d div int (length (d_participants d))
                      + d_amount d mod int (length (d_participants d))\<rparr>
          # map (\<lambda>u. \<lparr>s_userId = u, s_amount = d_amount d div int (length (d_participants d))\<rparr>)
              (tl (d_participants d))"
    using ne by (simp add: calculateTransactionSplits_def equalSplits_shape)
  have c: "calculateTransactionSplits
        \<lparr>d_amount = 100, d_paidBy = ''u1'', d_splitMode = EQUAL,
         d_participants = [''u1'', ''u2'', ''u3''], d_manualSplits = []\<rparr>
       = [\<lparr>s_userId = ''u1'', s_amount = 34\<rparr>, \<lparr>s_userId = ''u2'', s_amount = 33\<rparr>,
          \<lparr>s_userId = ''u3'', s_amount = 33\<rparr>]"
    by (simp add: calculateTransactionSplits_def equalSplits_def)
  from a b c show ?thesis by blast
qed

theorem calculateTransactionSplits_sum_witness:
  "d_participants percentageDraft \<noteq> [] \<and> d_splitMode percentageDraft \<noteq> EXACT
   \<and> calculateTransactionSplits percentageDraft
       = [\<lparr>s_userId = ''u1'', s_amount = 33\<rparr>, \<lparr>s_userId = ''u2'', s_amount = 34\<rparr>,
          \<lparr>s_userId = ''u3'', s_amount = 33\<rparr>]
   \<and> sum_list (map s_amount (calculateTransactionSplits percentageDraft)) = d_amount percentageDraft
   \<and> d_amount percentageDraft = 100"
proof -
  have ne: "d_participants percentageDraft \<noteq> []" and mode: "d_splitMode percentageDraft \<noteq> EXACT"
    by (simp_all add: percentageDraft_def)
  have v: "calculateTransactionSplits percentageDraft
       = [\<lparr>s_userId = ''u1'', s_amount = 33\<rparr>, \<lparr>s_userId = ''u2'', s_amount = 34\<rparr>,
          \<lparr>s_userId = ''u3'', s_amount = 33\<rparr>]"
    by (simp add: calculateTransactionSplits_def percentageSplits_def percentageDraft_def
        roundPercent_def Let_def)
  have amt: "d_amount percentageDraft = 100" by (simp add: percentageDraft_def)
  from calculateTransactionSplits_sum [OF ne mode]
  have "sum_list (map s_amount (calculateTransactionSplits percentageDraft)) = d_amount percentageDraft"
    by blast
  with ne mode v amt show ?thesis by blast
qed

end
